theory Spec2Isabelle
  imports Main
begin

section \<open>Python values, exceptions and observable effects\<close>

text \<open>
  Shallow embedding of \<^verbatim>\<open>healthchain/clients/ehrclient.py\<close>: the \<^verbatim>\<open>ehr\<close> decorator and
  the class \<^verbatim>\<open>EHRClient\<close>.

  A Python value as it occurs in a request model or in a decoded JSON body. \<open>PModel\<close> is
  an instance of a pydantic model, its fields in declaration order; \<open>PDict\<close> is a plain
  dictionary. The empty mapping \<^verbatim>\<open>{}\<close> is \<open>PDict []\<close>.
\<close>

datatype pyval =
    PNone
  | PBool bool
  | PInt int
  | PStr string
  | PList "pyval list"
  | PDict "(string \<times> pyval) list"
  | PModel "(string \<times> pyval) list"

text \<open>A \<^verbatim>\<open>CDSRequest\<close> is a pydantic model: its fields, by name, in declaration order.\<close>

type_synonym request = "(string \<times> pyval) list"

text \<open>A resolved member of the enum \<^verbatim>\<open>Workflow\<close>, identified by its value.\<close>

type_synonym workflow = string

text \<open>
  The instances of Python's \<^verbatim>\<open>Exception\<close> that the module raises or handles.
  \<open>ValueError\<close> carries the rejected identifier and the list of valid options of the
  message built in line 57. \<open>TimeoutException\<close> is a subclass of \<open>RequestError\<close> in httpx,
  and is a constructor of its own here, so \<open>RequestError\<close> stands for every other
  transport failure. \<open>OtherException\<close> is any exception of another class.
\<close>

datatype exn =
    AssertionError
  | ValueError string "string list"
  | NotImplementedError
  | TypeError
  | HTTPStatusError nat
  | TimeoutException
  | RequestError
  | OtherException string

text \<open>The records written to the module's logger, one constructor per call site.\<close>

datatype log_record =
    Error_set_workflow workflow string exn
  | Warning_more_than_one
  | Error_response nat string
  | Error_timed_out string
  | Error_requesting string

text \<open>
  What the module does to the outside, in the order it does it: the calls of
  \<^verbatim>\<open>set_workflow\<close> through \<^verbatim>\<open>assign_to_attribute\<close>, of the data generator function, of
  \<^verbatim>\<open>construct_request\<close> and of \<^verbatim>\<open>client.post\<close> (with the URL and the JSON body), and the
  log records.
\<close>

datatype event =
    CallSetWorkflow string workflow
  | CallFunc
  | CallConstructRequest
  | CallPost string pyval
  | Log log_record

section \<open>Serialisation: \<^verbatim>\<open>model_dump(exclude_none=True)\<close>\<close>

text \<open>
  pydantic's \<^verbatim>\<open>model_dump(exclude_none=True)\<close>: a model becomes a dictionary of its
  fields without those whose value is \<^verbatim>\<open>None\<close>; the option is passed on to the models
  nested in fields, lists and dictionaries. Every other value is kept as it is.
\<close>

fun model_dump_value :: "pyval \<Rightarrow> pyval" where
  "model_dump_value (PModel fs) =
     PDict (map (\<lambda>kv. (fst kv, model_dump_value (snd kv)))
                (filter (\<lambda>kv. snd kv \<noteq> PNone) fs))"
| "model_dump_value (PDict kvs) =
     PDict (map (\<lambda>kv. (fst kv, model_dump_value (snd kv))) kvs)"
| "model_dump_value (PList xs) = PList (map model_dump_value xs)"
| "model_dump_value v = v"

definition model_dump :: "request \<Rightarrow> pyval" where
  "model_dump request = model_dump_value (PModel request)"

section \<open>\<^verbatim>\<open>EHRClient.send_request\<close>\<close>

text \<open>
  An httpx response: its status code and what \<^verbatim>\<open>response.json()\<close> gives, the decoded
  body or the exception raised on a body that is not JSON.
\<close>

record response =
  status_code :: nat
  json :: "exn + pyval"

text \<open>
  The transport: what \<^verbatim>\<open>client.post\<close> does on the k-th call of a batch, for a URL and a
  JSON body: it raises or it returns a response.
\<close>

type_synonym transport = "nat \<Rightarrow> string \<Rightarrow> pyval \<Rightarrow> exn + response"

text \<open>httpx: \<^verbatim>\<open>raise_for_status\<close> raises \<^verbatim>\<open>HTTPStatusError\<close> unless the status is 2xx.\<close>

definition raise_for_status :: "response \<Rightarrow> exn + response" where
  "raise_for_status r =
     (if 200 \<le> status_code r \<and> status_code r \<le> 299 then Inr r
      else Inl (HTTPStatusError (status_code r)))"

text \<open>The body of the \<^verbatim>\<open>try\<close>, lines 144 to 151: post, check the status, decode.\<close>

definition try_post :: "transport \<Rightarrow> nat \<Rightarrow> string \<Rightarrow> request \<Rightarrow> exn + pyval" where
  "try_post post k url request =
     (case post k url (model_dump request) of
        Inl e \<Rightarrow> Inl e
      | Inr r \<Rightarrow> (case raise_for_status r of
                   Inl e \<Rightarrow> Inl e
                 | Inr r' \<Rightarrow> json r'))"

text \<open>
  The loop of lines 141 to 164, over the rest of the queue, with the number of posts made
  so far, the responses collected and the events so far. The three \<^verbatim>\<open>except\<close> clauses
  log and append \<^verbatim>\<open>{}\<close>; any other exception leaves the loop and the method.
\<close>

fun send_loop ::
  "transport \<Rightarrow> string \<Rightarrow> request list \<Rightarrow> nat \<Rightarrow> pyval list \<Rightarrow> event list
     \<Rightarrow> (exn + pyval list) \<times> event list" where
  "send_loop post url [] k json_responses evs = (Inr json_responses, evs)"
| "send_loop post url (request # rest) k json_responses evs =
     (let evs1 = evs @ [CallPost url (model_dump request)] in
      case try_post post k url request of
        Inr body \<Rightarrow> send_loop post url rest (Suc k) (json_responses @ [body]) evs1
      | Inl (HTTPStatusError code) \<Rightarrow>
          send_loop post url rest (Suc k) (json_responses @ [PDict []])
            (evs1 @ [Log (Error_response code url)])
      | Inl TimeoutException \<Rightarrow>
          send_loop post url rest (Suc k) (json_responses @ [PDict []])
            (evs1 @ [Log (Error_timed_out url)])
      | Inl RequestError \<Rightarrow>
          send_loop post url rest (Suc k) (json_responses @ [PDict []])
            (evs1 @ [Log (Error_requesting url)])
      | Inl e \<Rightarrow> (Inl e, evs1))"

definition send_request ::
  "transport \<Rightarrow> string \<Rightarrow> request list \<Rightarrow> (exn + pyval list) \<times> event list" where
  "send_request post url request_data = send_loop post url request_data 0 [] []"

section \<open>\<^verbatim>\<open>EHRClient\<close>: the request queue\<close>

text \<open>
  The state outside the client: \<open>heap\<close> is everything the collaborators can read and
  change (the use case object, its data generators, its strategy), of a type \<open>'u\<close> the
  model leaves open; \<open>trace\<close> is the events so far.
\<close>

record 'u world =
  heap :: 'u
  trace :: "event list"

text \<open>
  The fields of \<^verbatim>\<open>EHRClient.__init__\<close>. The data generator function takes its arguments
  \<open>'a\<close> and returns generated data \<open>'d\<close> or raises; \<open>strategy\<close> is the strategy object,
  given by what its \<^verbatim>\<open>construct_request(data, workflow)\<close> does. Both may change the heap.
\<close>

record ('u, 'a, 'd) EHRClient =
  data_generator_func :: "'a \<Rightarrow> 'u \<Rightarrow> (exn + 'd) \<times> 'u"
  workflow :: workflow
  strategy :: "'d \<Rightarrow> workflow \<Rightarrow> 'u \<Rightarrow> (exn + request) \<times> 'u"
  request_data :: "request list"

definition EHRClient_init ::
  "('a \<Rightarrow> 'u \<Rightarrow> (exn + 'd) \<times> 'u) \<Rightarrow> workflow \<Rightarrow> ('d \<Rightarrow> workflow \<Rightarrow> 'u \<Rightarrow> (exn + request) \<times> 'u)
     \<Rightarrow> ('u, 'a, 'd) EHRClient" where
  "EHRClient_init func workflow_id strat =
     \<lparr>data_generator_func = func, workflow = workflow_id, strategy = strat, request_data = []\<rparr>"

text \<open>
  \<^verbatim>\<open>generate_request\<close>, lines 124 and 125. The result is the exception raised, if any,
  with the client as the call leaves it. The append is the last thing the method does.
\<close>

definition generate_request ::
  "('u, 'a, 'd) EHRClient \<Rightarrow> 'a \<Rightarrow> 'u world
     \<Rightarrow> (exn option \<times> ('u, 'a, 'd) EHRClient) \<times> 'u world" where
  "generate_request client args w =
     (case data_generator_func client args (heap w) of
        (Inl e, h1) \<Rightarrow>
          ((Some e, client), \<lparr>heap = h1, trace = trace w @ [CallFunc]\<rparr>)
      | (Inr data, h1) \<Rightarrow>
          (case strategy client data (workflow client) h1 of
             (Inl e, h2) \<Rightarrow>
               ((Some e, client),
                \<lparr>heap = h2, trace = trace w @ [CallFunc, CallConstructRequest]\<rparr>)
           | (Inr request, h2) \<Rightarrow>
               ((None, client\<lparr>request_data := request_data client @ [request]\<rparr>),
                \<lparr>heap = h2, trace = trace w @ [CallFunc, CallConstructRequest]\<rparr>)))"

section \<open>The decorator \<^verbatim>\<open>ehr\<close>\<close>

text \<open>
  What the wrapper uses and this module does not define: the values of the enum
  \<^verbatim>\<open>Workflow\<close>, in declaration order; whether the caller's class is a subclass of
  \<^verbatim>\<open>BaseUseCase\<close>; the helpers \<^verbatim>\<open>find_attributes_of_type(self, CdsDataGenerator)\<close> and
  \<^verbatim>\<open>assign_to_attribute(self, name, "set_workflow", workflow)\<close>, the second returning the
  exception it raised, if any; the caller's \<^verbatim>\<open>self.type\<close>; and the caller's
  \<^verbatim>\<open>self.strategy\<close>.
\<close>

text \<open>
  The value of the caller's \<^verbatim>\<open>self.type\<close>: a member of the enum \<^verbatim>\<open>UseCaseType\<close>, a member
  of another enum, or a value that is no enum member at all (a string, \<^verbatim>\<open>None\<close>).
\<close>

datatype use_case_type =
    UseCaseMember string
  | OtherEnumMember string
  | NotAnEnum pyval

text \<open>
  The test \<^verbatim>\<open>self.type in UseCaseType\<close> of line 76, which is the containment test of
  Python's \<^verbatim>\<open>Enum\<close> classes. Up to Python 3.11 it raises \<^verbatim>\<open>TypeError\<close> for a value that is no
  enum member, and answers whether an enum member is one of this enum. (From Python 3.12 on
  it answers \<^verbatim>\<open>False\<close> instead of raising, unless the value is the value of a member.)
\<close>

fun UseCaseType_contains :: "use_case_type \<Rightarrow> exn + bool" where
  "UseCaseType_contains (UseCaseMember name) = Inr True"
| "UseCaseType_contains (OtherEnumMember name) = Inr False"
| "UseCaseType_contains (NotAnEnum v) = Inl TypeError"

record ('u, 'd) env =
  Workflow_values :: "string list"
  is_use_case :: "'u \<Rightarrow> bool"
  find_attributes_of_type :: "'u \<Rightarrow> string list"
  assign_to_attribute :: "string \<Rightarrow> workflow \<Rightarrow> 'u \<Rightarrow> exn option \<times> 'u"
  self_type :: "'u \<Rightarrow> use_case_type"
  self_strategy :: "'d \<Rightarrow> workflow \<Rightarrow> 'u \<Rightarrow> (exn + request) \<times> 'u"

text \<open>
  The enum's constructor \<^verbatim>\<open>Workflow(value)\<close>: the member with that value, or a
  \<^verbatim>\<open>ValueError\<close> naming the value.
\<close>

definition Workflow :: "string list \<Rightarrow> string \<Rightarrow> exn + workflow" where
  "Workflow values v = (if v \<in> set values then Inr v else Inl (ValueError v []))"

text \<open>
  One turn of the loop of lines 63 to 74, for the attribute at index \<open>i\<close>: an exception
  of \<^verbatim>\<open>set_workflow\<close> is logged, and the warning is logged when \<open>i > 1\<close>.
\<close>

definition configure_attribute ::
  "('u, 'd) env \<Rightarrow> workflow \<Rightarrow> string \<Rightarrow> nat \<Rightarrow> 'u world \<Rightarrow> 'u world" where
  "configure_attribute env workflow_enum attribute_name i w =
     (case assign_to_attribute env attribute_name workflow_enum (heap w) of
        (r, h') \<Rightarrow>
          \<lparr>heap = h',
           trace = trace w @ [CallSetWorkflow attribute_name workflow_enum]
             @ (case r of
                  None \<Rightarrow> []
                | Some e \<Rightarrow> [Log (Error_set_workflow workflow_enum attribute_name e)])
             @ (if i > 1 then [Log Warning_more_than_one] else [])\<rparr>)"

text \<open>The loop, over the attribute names from index \<open>i\<close> on; it goes on after a failure.\<close>

fun set_workflows ::
  "('u, 'd) env \<Rightarrow> workflow \<Rightarrow> string list \<Rightarrow> nat \<Rightarrow> 'u world \<Rightarrow> 'u world" where
  "set_workflows env workflow_enum [] i w = w"
| "set_workflows env workflow_enum (attribute_name # rest) i w =
     set_workflows env workflow_enum rest (Suc i)
       (configure_attribute env workflow_enum attribute_name i w)"

text \<open>Lines 62 to 74: the attributes are looked up once, then configured.\<close>

definition configured :: "('u, 'd) env \<Rightarrow> workflow \<Rightarrow> 'u world \<Rightarrow> 'u world" where
  "configured env workflow_enum w =
     set_workflows env workflow_enum (find_attributes_of_type env (heap w)) 0 w"

text \<open>
  Lines 78 and 79, \<^verbatim>\<open>for _ in range(num)\<close>, for the number of turns left. An exception
  of \<^verbatim>\<open>generate_request\<close> leaves the loop.
\<close>

fun generate_requests ::
  "nat \<Rightarrow> ('u, 'a, 'd) EHRClient \<Rightarrow> 'a \<Rightarrow> 'u world
     \<Rightarrow> (exn option \<times> ('u, 'a, 'd) EHRClient) \<times> 'u world" where
  "generate_requests 0 method args w = ((None, method), w)"
| "generate_requests (Suc n) method args w =
     (case generate_request method args w of
        ((Some e, method'), w') \<Rightarrow> ((Some e, method'), w')
      | ((None, method'), w') \<Rightarrow> generate_requests n method' args w')"

text \<open>
  The wrapper, lines 49 to 84, called on a use case object (the heap of \<open>w\<close>) with the
  arguments \<open>args\<close>; \<open>func\<close>, \<open>workflow_id\<close> and \<open>num\<close> are the decorator's. \<^verbatim>\<open>range(num)\<close> is
  empty for a negative \<open>num\<close>, which is \<open>nat num = 0\<close>. An exception of the test of line 76
  leaves the wrapper.
\<close>

definition ehr ::
  "('u, 'd) env \<Rightarrow> ('a \<Rightarrow> 'u \<Rightarrow> (exn + 'd) \<times> 'u) \<Rightarrow> string \<Rightarrow> int \<Rightarrow> 'a \<Rightarrow> 'u world
     \<Rightarrow> (exn + ('u, 'a, 'd) EHRClient) \<times> 'u world" where
  "ehr env func workflow_id num args w =
     (if \<not> is_use_case env (heap w) then (Inl AssertionError, w)
      else
        (case Workflow (Workflow_values env) workflow_id of
           Inl (ValueError v opts) \<Rightarrow> (Inl (ValueError v (Workflow_values env)), w)
         | Inl e \<Rightarrow> (Inl e, w)
         | Inr workflow_enum \<Rightarrow>
             (let w1 = configured env workflow_enum w in
              case UseCaseType_contains (self_type env (heap w1)) of
                Inl e \<Rightarrow> (Inl e, w1)
              | Inr recognised \<Rightarrow>
                  if recognised then
                    (case generate_requests (nat num)
                            (EHRClient_init func workflow_enum (self_strategy env)) args w1 of
                       ((Some e, method), w2) \<Rightarrow> (Inl e, w2)
                     | ((None, method), w2) \<Rightarrow> (Inr method, w2))
                  else (Inl NotImplementedError, w1))))"

section \<open>Vocabulary of the properties\<close>

text \<open>
  The four outcomes of one request that the batch is specified for, and the result each
  contributes: a 2xx response with a JSON body gives the body; a response with another
  status, a timeout and any other transport failure give \<^verbatim>\<open>{}\<close>. Anything else (a 2xx
  response whose body does not decode, an exception of another class) is \<open>None\<close>.
\<close>

fun outcome_result :: "exn + response \<Rightarrow> pyval option" where
  "outcome_result (Inr r) =
     (if 200 \<le> status_code r \<and> status_code r \<le> 299
      then (case json r of Inr body \<Rightarrow> Some body | Inl e \<Rightarrow> None)
      else Some (PDict []))"
| "outcome_result (Inl TimeoutException) = Some (PDict [])"
| "outcome_result (Inl RequestError) = Some (PDict [])"
| "outcome_result (Inl e) = None"

text \<open>The outcomes that are failures of a request.\<close>

fun failed :: "exn + response \<Rightarrow> bool" where
  "failed (Inr r) = (\<not> (200 \<le> status_code r \<and> status_code r \<le> 299))"
| "failed (Inl TimeoutException) = True"
| "failed (Inl RequestError) = True"
| "failed (Inl e) = False"

text \<open>The exceptions that the three \<^verbatim>\<open>except\<close> clauses of \<^verbatim>\<open>send_request\<close> name.\<close>

definition caught :: "exn \<Rightarrow> bool" where
  "caught e =
     (case e of
        HTTPStatusError c \<Rightarrow> True
      | TimeoutException \<Rightarrow> True
      | RequestError \<Rightarrow> True
      | _ \<Rightarrow> False)"

text \<open>The calls of \<^verbatim>\<open>client.post\<close> in a trace, in order.\<close>

fun is_post :: "event \<Rightarrow> bool" where
  "is_post (CallPost u b) = True"
| "is_post e = False"

definition posts :: "event list \<Rightarrow> event list" where
  "posts evs = filter is_post evs"

text \<open>
  The calls of \<^verbatim>\<open>set_workflow\<close> in a trace, the calls that generate a request (of the data
  generator function and of \<^verbatim>\<open>construct_request\<close>), and the number of warnings logged.
\<close>

fun is_set_workflow :: "event \<Rightarrow> bool" where
  "is_set_workflow (CallSetWorkflow name v) = True"
| "is_set_workflow e = False"

definition set_workflow_calls :: "event list \<Rightarrow> event list" where
  "set_workflow_calls evs = filter is_set_workflow evs"

definition generation_calls :: "event list \<Rightarrow> event list" where
  "generation_calls evs = filter (\<lambda>e. e = CallFunc \<or> e = CallConstructRequest) evs"

definition warnings :: "event list \<Rightarrow> nat" where
  "warnings evs = length (filter (\<lambda>e. e = Log Warning_more_than_one) evs)"

text \<open>
  A value that is empty or absent, in the words of the specification: \<^verbatim>\<open>None\<close>, the empty
  string, the empty list, the empty mapping.
\<close>

fun empty_or_absent :: "pyval \<Rightarrow> bool" where
  "empty_or_absent PNone = True"
| "empty_or_absent (PStr s) = (s = [])"
| "empty_or_absent (PList xs) = (xs = [])"
| "empty_or_absent (PDict kvs) = (kvs = [])"
| "empty_or_absent v = False"

section \<open>Example inputs\<close>

text \<open>
  A queue of three requests; a server that answers the second request with status 500 and
  the others with status 200 and a JSON body; a server that never answers in time.
\<close>

definition example_url :: string where
  "example_url = ''http://localhost:8000/cds-services/1''"

definition example_request :: "string \<Rightarrow> request" where
  "example_request patient =
     [(''hook'', PStr ''patient-view''),
      (''context'', PModel [(''userId'', PStr ''Practitioner/1''), (''patientId'', PStr patient),
                            (''encounterId'', PNone)]),
      (''prefetch'', PDict []),
      (''extension'', PNone)]"

definition example_queue :: "request list" where
  "example_queue = [example_request ''a'', example_request ''b'', example_request ''c'']"

definition example_post :: transport where
  "example_post k url body =
     (if k = 1 then Inr \<lparr>status_code = 500, json = Inl (OtherException ''JSONDecodeError'')\<rparr>
      else Inr \<lparr>status_code = 200, json = Inr (PDict [(''cards'', PList [])])\<rparr>)"

definition timeout_post :: transport where
  "timeout_post k url body = Inl TimeoutException"

text \<open>
  A use case with two data generator attributes, the first of which refuses the workflow;
  a data generator function that counts its calls in the heap; one that raises on its
  second call; a strategy that raises; and a client with one request in its queue.
\<close>

definition example_env :: "(nat, pyval) env" where
  "example_env =
     \<lparr>Workflow_values = [''patient-view'', ''encounter-discharge''],
      is_use_case = (\<lambda>u. True),
      find_attributes_of_type = (\<lambda>u. [''data_generator'', ''spare_generator'']),
      assign_to_attribute =
        (\<lambda>name v u. if name = ''data_generator''
                    then (Some (OtherException ''workflow not supported''), u)
                    else (None, u)),
      self_type = (\<lambda>u. UseCaseMember ''cds''),
      self_strategy =
        (\<lambda>data v u. (Inr [(''hook'', PStr v), (''context'', data), (''prefetch'', PNone)], u))\<rparr>"

definition example_func :: "string \<Rightarrow> nat \<Rightarrow> (exn + pyval) \<times> nat" where
  "example_func patient u = (Inr (PModel [(''patientId'', PStr patient)]), Suc u)"

definition failing_func :: "string \<Rightarrow> nat \<Rightarrow> (exn + pyval) \<times> nat" where
  "failing_func patient u =
     (if u = 1 then (Inl (OtherException ''no data''), Suc u)
      else (Inr (PModel [(''patientId'', PStr patient)]), Suc u))"

definition example_world :: "nat world" where
  "example_world = \<lparr>heap = 0, trace = []\<rparr>"

definition example_client :: "(nat, string, pyval) EHRClient" where
  "example_client =
     EHRClient_init example_func ''patient-view'' (self_strategy example_env)
       \<lparr>request_data := [[(''hook'', PStr ''patient-view'')]]\<rparr>"

definition raising_strategy :: "pyval \<Rightarrow> workflow \<Rightarrow> nat \<Rightarrow> (exn + request) \<times> nat" where
  "raising_strategy data v u = (Inl (ValueError ''context'' []), u)"

section \<open>Properties of \<^verbatim>\<open>send_request\<close>\<close>

text \<open>The definitions that evaluate the example inputs.\<close>

lemmas example_defs =
  example_env_def example_func_def failing_func_def example_world_def example_client_def
  EHRClient_init_def configured_def configure_attribute_def generate_request_def

lemma posts_append: "posts (xs @ ys) = posts xs @ posts ys"
  by (simp add: posts_def)

lemma posts_single:
  "posts (CallPost u b # xs) = CallPost u b # posts xs"
  "posts (Log l # xs) = posts xs"
  "posts [] = []"
  by (simp_all add: posts_def)

lemma send_loop_results:
  "\<forall>(i, r) \<in> set (enumerate k q). outcome_result (post i url (model_dump r)) \<noteq> None \<Longrightarrow>
   fst (send_loop post url q k acc evs) =
     Inr (acc @ map (\<lambda>(i, r). the (outcome_result (post i url (model_dump r)))) (enumerate k q))"
proof (induction q arbitrary: k acc evs)
  case Nil
  then show ?case by simp
next
  case (Cons r rest)
  from Cons.prems have here: "outcome_result (post k url (model_dump r)) \<noteq> None"
    and later: "\<forall>(i, r) \<in> set (enumerate (Suc k) rest). outcome_result (post i url (model_dump r)) \<noteq> None"
    by auto
  note IH = Cons.IH [OF later]
  show ?case
  proof (cases "post k url (model_dump r)")
    case (Inl e)
    with here show ?thesis
      by (cases e) (simp_all add: try_post_def IH)
  next
    case (Inr resp)
    with here show ?thesis
      by (cases "json resp") (auto simp: try_post_def raise_for_status_def IH split: if_splits)
  qed
qed

lemma send_loop_posts:
  "\<forall>(i, r) \<in> set (enumerate k q). outcome_result (post i url (model_dump r)) \<noteq> None \<Longrightarrow>
   posts (snd (send_loop post url q k acc evs)) =
     posts evs @ map (\<lambda>r. CallPost url (model_dump r)) q"
proof (induction q arbitrary: k acc evs)
  case Nil
  then show ?case by simp
next
  case (Cons r rest)
  from Cons.prems have here: "outcome_result (post k url (model_dump r)) \<noteq> None"
    and later: "\<forall>(i, r) \<in> set (enumerate (Suc k) rest). outcome_result (post i url (model_dump r)) \<noteq> None"
    by auto
  note IH = Cons.IH [OF later]
  show ?case
  proof (cases "post k url (model_dump r)")
    case (Inl e)
    with here show ?thesis
      by (cases e) (simp_all add: try_post_def IH posts_append posts_single)
  next
    case (Inr resp)
    with here show ?thesis
      by (cases "json resp") (auto simp: try_post_def raise_for_status_def IH posts_append posts_single split: if_splits)
  qed
qed

lemma send_loop_never_raises_caught:
  "fst (send_loop post url q k acc evs) = Inl e \<Longrightarrow> \<not> caught e"
proof (induction q arbitrary: k acc evs)
  case Nil
  then show ?case by simp
next
  case (Cons r rest)
  show ?case
  proof (cases "try_post post k url r")
    case (Inr body)
    with Cons show ?thesis by simp
  next
    case (Inl x)
    with Cons show ?thesis
      by (cases x) (auto simp: caught_def)
  qed
qed

lemma enumerate_classified:
  "(\<forall>i<length q. outcome_result (post i url (model_dump (q ! i))) \<noteq> None) \<Longrightarrow>
   \<forall>(i, r) \<in> set (enumerate 0 q). outcome_result (post i url (model_dump r)) \<noteq> None"
  by (auto simp: in_set_enumerate_eq)

lemma send_request_classified:
  assumes "\<forall>i<length q. outcome_result (post i url (model_dump (q ! i))) \<noteq> None"
  shows "fst (send_request post url q) =
           Inr (map (\<lambda>i. the (outcome_result (post i url (model_dump (q ! i))))) [0..<length q])"
proof -
  have "map (\<lambda>(i, r). the (outcome_result (post i url (model_dump r)))) (enumerate 0 q)
        = map (\<lambda>i. the (outcome_result (post i url (model_dump (q ! i))))) [0..<length q]"
    by (rule nth_equalityI) (simp_all add: nth_enumerate_eq)
  with send_loop_results [where q = q and post = post and url = url and k = 0 and acc = "[]" and evs = "[]"]
    enumerate_classified [where q = q and post = post and url = url] assms
  show ?thesis by (simp add: send_request_def)
qed

lemma failed_result: "failed out \<Longrightarrow> outcome_result out = Some (PDict [])"
  by (cases out rule: failed.cases) auto

text \<open>
  Claim C1. Whatever the queue, and whatever the outcome of each request among success
  with a JSON body, a status that is not 2xx, a timeout and a transport failure,
  \<^verbatim>\<open>send_request\<close> returns a list as long as the queue, and its element at position \<open>i\<close> is
  the result of the request at position \<open>i\<close>: the decoded body on success, \<^verbatim>\<open>{}\<close> otherwise.
\<close>

theorem send_request_results:
  assumes "\<forall>i<length q. outcome_result (post i url (model_dump (q ! i))) \<noteq> None"
  shows "\<exists>rs. fst (send_request post url q) = Inr rs \<and> length rs = length q \<and>
           (\<forall>i<length q. Some (rs ! i) = outcome_result (post i url (model_dump (q ! i))))"
  using assms send_request_classified [where q = q and post = post and url = url]
  by auto

text \<open>
  The scenario of the specification: three requests, status 200 for the first and the
  third, status 500 for the second.
\<close>

theorem send_request_results_witness:
  "fst (send_request example_post example_url example_queue) =
     Inr [PDict [(''cards'', PList [])], PDict [], PDict [(''cards'', PList [])]]"
proof -
  have h: "\<forall>i<length example_queue.
             outcome_result (example_post i example_url (model_dump (example_queue ! i))) \<noteq> None"
    by (simp add: example_post_def)
  from send_request_results [where q = example_queue and post = example_post and url = example_url] h
  obtain rs where
    r: "fst (send_request example_post example_url example_queue) = Inr rs"
    and l: "length rs = length example_queue"
    and n: "\<forall>i<length example_queue.
              Some (rs ! i) = outcome_result (example_post i example_url (model_dump (example_queue ! i)))"
    by blast
  from l have l3: "length rs = 3" by (simp add: example_queue_def)
  from n have "Some (rs ! 0) = Some (PDict [(''cards'', PList [])])"
    "Some (rs ! 1) = Some (PDict [])" "Some (rs ! 2) = Some (PDict [(''cards'', PList [])])"
    by (simp_all add: example_queue_def example_post_def)
  with l3 have "rs = [PDict [(''cards'', PList [])], PDict [], PDict [(''cards'', PList [])]]"
    by (intro nth_equalityI) (auto simp: less_Suc_eq numeral_3_eq_3 numeral_2_eq_2)
  with r show ?thesis by simp
qed

text \<open>
  Claim C2. A status that is not 2xx, a timeout and a transport failure are never raised
  to the caller of \<^verbatim>\<open>send_request\<close>. When every request of the queue has one of the four
  outcomes, the method returns, the position of every failed request holds \<^verbatim>\<open>{}\<close>, and
  every request of the queue has been posted, in order: no failure ends the batch early.
\<close>

theorem send_request_isolates_failures:
  "(\<forall>e. fst (send_request post url q) = Inl e \<longrightarrow> \<not> caught e)
   \<and> ((\<forall>i<length q. outcome_result (post i url (model_dump (q ! i))) \<noteq> None) \<longrightarrow>
        (\<exists>rs. fst (send_request post url q) = Inr rs
           \<and> (\<forall>i<length q. failed (post i url (model_dump (q ! i))) \<longrightarrow> rs ! i = PDict [])
           \<and> posts (snd (send_request post url q)) = map (\<lambda>r. CallPost url (model_dump r)) q))"
proof (intro conjI allI impI)
  fix e assume "fst (send_request post url q) = Inl e"
  then show "\<not> caught e"
    unfolding send_request_def by (rule send_loop_never_raises_caught)
next
  assume h: "\<forall>i<length q. outcome_result (post i url (model_dump (q ! i))) \<noteq> None"
  have p: "posts (snd (send_request post url q)) = map (\<lambda>r. CallPost url (model_dump r)) q"
    using send_loop_posts [where q = q and post = post and url = url and k = 0 and acc = "[]" and evs = "[]"]
      enumerate_classified [where q = q and post = post and url = url] h
    by (simp add: send_request_def posts_single)
  show "\<exists>rs. fst (send_request post url q) = Inr rs
           \<and> (\<forall>i<length q. failed (post i url (model_dump (q ! i))) \<longrightarrow> rs ! i = PDict [])
           \<and> posts (snd (send_request post url q)) = map (\<lambda>r. CallPost url (model_dump r)) q"
    using p h send_request_classified [where q = q and post = post and url = url]
    by (simp add: failed_result)
qed

text \<open>The scenario of the specification in which every request times out.\<close>

theorem send_request_isolates_failures_witness:
  "fst (send_request timeout_post example_url example_queue) = Inr [PDict [], PDict [], PDict []]
   \<and> posts (snd (send_request timeout_post example_url example_queue)) =
       map (\<lambda>r. CallPost example_url (model_dump r)) example_queue"
proof -
  have h: "\<forall>i<length example_queue.
             outcome_result (timeout_post i example_url (model_dump (example_queue ! i))) \<noteq> None"
    by (simp add: timeout_post_def)
  have f: "\<And>i. failed (timeout_post i example_url (model_dump (example_queue ! i)))"
    by (simp add: timeout_post_def)
  from send_request_isolates_failures [of timeout_post example_url example_queue] h f
  obtain rs where r: "fst (send_request timeout_post example_url example_queue) = Inr rs"
    and n: "\<forall>i<length example_queue. rs ! i = PDict []"
    and p: "posts (snd (send_request timeout_post example_url example_queue)) =
       map (\<lambda>r. CallPost example_url (model_dump r)) example_queue"
    by blast
  have l: "length rs = 3"
    using r h send_request_classified [where q = example_queue and post = timeout_post and url = example_url]
    by (auto simp: example_queue_def)
  from n have "rs ! 0 = PDict []" "rs ! 1 = PDict []" "rs ! 2 = PDict []"
    by (simp_all add: example_queue_def)
  with l have "rs = [PDict [], PDict [], PDict []]"
    by (intro nth_equalityI) (auto simp: less_Suc_eq numeral_3_eq_3 numeral_2_eq_2)
  with r p show ?thesis by simp
qed

lemma send_loop_posts_prefix:
  "\<exists>n. posts (snd (send_loop post url q k acc evs)) =
         posts evs @ map (\<lambda>r. CallPost url (model_dump r)) (take n q)"
proof (induction q arbitrary: k acc evs)
  case Nil
  show ?case by simp
next
  case (Cons r rest)
  let ?evs1 = "evs @ [CallPost url (model_dump r)]"
  have step: "\<exists>n. posts (snd (send_loop post url (r # rest) k acc evs)) =
         posts ?evs1 @ map (\<lambda>r. CallPost url (model_dump r)) (take n rest)"
  proof (cases "try_post post k url r")
    case (Inr body)
    with Cons.IH [of "Suc k" "acc @ [body]" ?evs1] show ?thesis by simp
  next
    case (Inl e)
    have stop: "posts ?evs1 = posts ?evs1 @ map (\<lambda>r. CallPost url (model_dump r)) (take 0 rest)"
      by simp
    show ?thesis
    proof (cases e)
      case (HTTPStatusError code)
      with Inl Cons.IH [of "Suc k" "acc @ [PDict []]" "?evs1 @ [Log (Error_response code url)]"]
      show ?thesis by (simp add: posts_append posts_single)
    next
      case TimeoutException
      with Inl Cons.IH [of "Suc k" "acc @ [PDict []]" "?evs1 @ [Log (Error_timed_out url)]"]
      show ?thesis by (simp add: posts_append posts_single)
    next
      case RequestError
      with Inl Cons.IH [of "Suc k" "acc @ [PDict []]" "?evs1 @ [Log (Error_requesting url)]"]
      show ?thesis by (simp add: posts_append posts_single)
    qed (use Inl stop in \<open>auto simp del: take_0 append_Nil2\<close>)
  qed
  then obtain n where
    "posts (snd (send_loop post url (r # rest) k acc evs)) =
       posts evs @ map (\<lambda>r. CallPost url (model_dump r)) (take (Suc n) (r # rest))"
    by (auto simp: posts_append posts_single)
  then show ?case by blast
qed

text \<open>
  Claim C7, as stated, fails: a field whose value is empty and not \<^verbatim>\<open>None\<close> is sent. The
  request below has the empty mapping in its field \<^verbatim>\<open>prefetch\<close>, and the body posted for
  it has that field; only the fields holding \<^verbatim>\<open>None\<close> are left out.
\<close>

theorem send_request_keeps_empty_field:
  "empty_or_absent (PDict [])
   \<and> (''prefetch'', PDict []) \<in> set (example_request ''a'')
   \<and> posts (snd (send_request example_post example_url [example_request ''a''])) =
       [CallPost example_url
          (PDict [(''hook'', PStr ''patient-view''),
                  (''context'', PDict [(''userId'', PStr ''Practitioner/1''), (''patientId'', PStr ''a'')]),
                  (''prefetch'', PDict [])])]"
  by (simp add: send_request_def example_request_def example_post_def try_post_def
      raise_for_status_def model_dump_def posts_def)

text \<open>
  Claim C7, amended. The requests that \<^verbatim>\<open>send_request\<close> puts on the wire are the requests
  of the queue, in order, each posted to the URL of the caller with the body
  \<^verbatim>\<open>model_dump(exclude_none=True)\<close> of the request; they are all the requests of the queue
  when every request has one of the four outcomes. The fields of the body are the fields
  of the request whose value is not \<^verbatim>\<open>None\<close>, in order: a field is left out when its value
  is \<^verbatim>\<open>None\<close>, and for no other value.
\<close>

theorem send_request_wire:
  "(\<exists>n. posts (snd (send_request post url q)) = map (\<lambda>r. CallPost url (model_dump r)) (take n q))
   \<and> ((\<forall>i<length q. outcome_result (post i url (model_dump (q ! i))) \<noteq> None) \<longrightarrow>
        posts (snd (send_request post url q)) = map (\<lambda>r. CallPost url (model_dump r)) q)
   \<and> (\<forall>request. \<exists>fs. model_dump request = PDict fs
        \<and> map fst fs = map fst (filter (\<lambda>kv. snd kv \<noteq> PNone) request))"
proof (intro conjI allI impI)
  show "\<exists>n. posts (snd (send_request post url q)) = map (\<lambda>r. CallPost url (model_dump r)) (take n q)"
    using send_loop_posts_prefix [of post url q 0 "[]" "[]"]
    by (simp add: send_request_def posts_single)
next
  assume h: "\<forall>i<length q. outcome_result (post i url (model_dump (q ! i))) \<noteq> None"
  show "posts (snd (send_request post url q)) = map (\<lambda>r. CallPost url (model_dump r)) q"
    using send_loop_posts [where q = q and post = post and url = url and k = 0 and acc = "[]" and evs = "[]"]
      enumerate_classified [where q = q and post = post and url = url] h
    by (simp add: send_request_def posts_single)
next
  fix request :: request
  show "\<exists>fs. model_dump request = PDict fs
        \<and> map fst fs = map fst (filter (\<lambda>kv. snd kv \<noteq> PNone) request)"
    by (simp add: model_dump_def comp_def)
qed

text \<open>The three requests of the example queue are all posted, to the example URL.\<close>

theorem send_request_wire_witness:
  "posts (snd (send_request example_post example_url example_queue)) =
     map (\<lambda>r. CallPost example_url (model_dump r)) example_queue"
proof -
  have h: "\<forall>i<length example_queue.
             outcome_result (example_post i example_url (model_dump (example_queue ! i))) \<noteq> None"
    by (simp add: example_post_def)
  from send_request_wire [of example_post example_url example_queue, THEN conjunct2, THEN conjunct1] h
  show ?thesis by blast
qed

section \<open>Properties of the request queue\<close>

lemma generate_request_cases:
  obtains (func_raises) e h1 where
      "data_generator_func client args (heap w) = (Inl e, h1)"
      "generate_request client args w =
         ((Some e, client), \<lparr>heap = h1, trace = trace w @ [CallFunc]\<rparr>)"
  | (construct_raises) data h1 e h2 where
      "data_generator_func client args (heap w) = (Inr data, h1)"
      "strategy client data (workflow client) h1 = (Inl e, h2)"
      "generate_request client args w =
         ((Some e, client), \<lparr>heap = h2, trace = trace w @ [CallFunc, CallConstructRequest]\<rparr>)"
  | (appended) data h1 request h2 where
      "data_generator_func client args (heap w) = (Inr data, h1)"
      "strategy client data (workflow client) h1 = (Inr request, h2)"
      "generate_request client args w =
         ((None, client\<lparr>request_data := request_data client @ [request]\<rparr>),
          \<lparr>heap = h2, trace = trace w @ [CallFunc, CallConstructRequest]\<rparr>)"
proof (cases "data_generator_func client args (heap w)")
  case (Pair r1 h1)
  show ?thesis
  proof (cases r1)
    case (Inl e)
    with Pair show ?thesis
      by (intro func_raises [of e h1]) (simp_all add: generate_request_def)
  next
    case (Inr data)
    note d = this
    show ?thesis
    proof (cases "strategy client data (workflow client) h1")
      case p2: (Pair r2 h2)
      show ?thesis
      proof (cases r2)
        case (Inl e)
        with Pair d p2 show ?thesis
          by (intro construct_raises [of data h1 e h2]) (simp_all add: generate_request_def)
      next
        case (Inr request)
        with Pair d p2 show ?thesis
          by (intro appended [of data h1 request h2]) (simp_all add: generate_request_def)
      qed
    qed
  qed
qed

lemma generate_request_success:
  "generate_request client args w = ((None, client'), w') \<Longrightarrow>
   \<exists>request. client' = client\<lparr>request_data := request_data client @ [request]\<rparr>"
  by (rule generate_request_cases [of client args w]) auto

lemma generate_request_failure:
  "generate_request client args w = ((Some e, client'), w') \<Longrightarrow> client' = client"
  by (rule generate_request_cases [of client args w]) auto

lemma generate_request_queue:
  "generate_request client args w = ((r, client'), w') \<Longrightarrow>
   \<exists>ys. request_data client' = request_data client @ ys \<and> length ys = (if r = None then 1 else 0)"
  by (rule generate_request_cases [of client args w]) auto

lemma generate_requests_length:
  "generate_requests n client args w = ((None, client'), w') \<Longrightarrow>
   length (request_data client') = length (request_data client) + n"
proof (induction n arbitrary: client w)
  case 0
  then show ?case by simp
next
  case (Suc n)
  obtain r c1 w1 where g: "generate_request client args w = ((r, c1), w1)"
    by (metis prod.collapse)
  show ?case
  proof (cases r)
    case None
    with Suc.prems g have "generate_requests n c1 args w1 = ((None, client'), w')" by simp
    from Suc.IH [OF this] generate_request_queue [OF g] None show ?thesis by auto
  next
    case (Some e)
    with Suc.prems g show ?thesis by simp
  qed
qed

lemma generate_requests_prefix:
  "generate_requests n client args w = ((r, client'), w') \<Longrightarrow>
   take (length (request_data client)) (request_data client') = request_data client
   \<and> length (request_data client) \<le> length (request_data client')"
proof (induction n arbitrary: client w)
  case 0
  then show ?case by simp
next
  case (Suc n)
  obtain r1 c1 w1 where g: "generate_request client args w = ((r1, c1), w1)"
    by (metis prod.collapse)
  from generate_request_queue [OF g]
  obtain ys where q1: "request_data c1 = request_data client @ ys" by blast
  show ?case
  proof (cases r1)
    case None
    with Suc.prems g have "generate_requests n c1 args w1 = ((r, client'), w')" by simp
    from Suc.IH [OF this]
    have t: "take (length (request_data c1)) (request_data client') = request_data c1"
      and l: "length (request_data c1) \<le> length (request_data client')" by simp_all
    have "take (length (request_data client)) (request_data client')
          = take (length (request_data client)) (take (length (request_data c1)) (request_data client'))"
      using q1 by (simp add: min_def)
    also have "\<dots> = request_data client" using t q1 by simp
    finally show ?thesis using l q1 by simp
  next
    case (Some e)
    with Suc.prems g have "client' = c1" by simp
    with q1 show ?thesis by simp
  qed
qed

lemma generate_requests_split:
  "generate_requests k client args w = ((None, client_k), w_k) \<Longrightarrow>
   generate_requests (k + m) client args w = generate_requests m client_k args w_k"
proof (induction k arbitrary: client w)
  case 0
  then show ?case by simp
next
  case (Suc k)
  obtain r c1 w1 where g: "generate_request client args w = ((r, c1), w1)"
    by (metis prod.collapse)
  show ?case
  proof (cases r)
    case None
    with Suc.prems g have "generate_requests k c1 args w1 = ((None, client_k), w_k)" by simp
    from Suc.IH [OF this] g None show ?thesis by simp
  next
    case (Some e)
    with Suc.prems g show ?thesis by simp
  qed
qed

lemma generate_requests_total:
  assumes f: "\<forall>a u. \<exists>d. fst (data_generator_func client a u) = Inr d"
    and s: "\<forall>d v u. \<exists>r. fst (strategy client d v u) = Inr r"
  shows "\<exists>client' w'. generate_requests n client args w = ((None, client'), w')"
  using f s
proof (induction n arbitrary: client w)
  case 0
  show ?case by simp
next
  case (Suc n)
  show ?case
  proof (rule generate_request_cases [of client args w])
    fix e h1 assume "data_generator_func client args (heap w) = (Inl e, h1)"
    with Suc.prems(1) show ?thesis by (metis fst_conv sum.distinct(1))
  next
    fix data h1 e h2
    assume "strategy client data (workflow client) h1 = (Inl e, h2)"
    with Suc.prems(2) show ?thesis by (metis fst_conv sum.distinct(1))
  next
    fix data h1 request h2
    assume g: "generate_request client args w =
         ((None, client\<lparr>request_data := request_data client @ [request]\<rparr>),
          \<lparr>heap = h2, trace = trace w @ [CallFunc, CallConstructRequest]\<rparr>)"
    have "\<exists>client' w'. generate_requests n (client\<lparr>request_data := request_data client @ [request]\<rparr>) args
             \<lparr>heap = h2, trace = trace w @ [CallFunc, CallConstructRequest]\<rparr> = ((None, client'), w')"
      using Suc.prems by (intro Suc.IH) simp_all
    with g show ?thesis by simp
  qed
qed

text \<open>
  Claim C6. A call of \<^verbatim>\<open>generate_request\<close> that returns appends exactly one request to the
  end of the queue. Whatever a call does, and whatever the calls of the wrapper's loop do,
  the queue before is a prefix of the queue after: it never shrinks and its entries keep
  their places. \<^verbatim>\<open>generate_request\<close> is the only operation of the model that changes the
  queue; \<^verbatim>\<open>send_request\<close> reads it.
\<close>

theorem generate_request_appends:
  "(\<forall>client' w'. generate_request client args w = ((None, client'), w') \<longrightarrow>
      (\<exists>request. request_data client' = request_data client @ [request]))
   \<and> (\<forall>r client' w'. generate_request client args w = ((r, client'), w') \<longrightarrow>
        take (length (request_data client)) (request_data client') = request_data client
        \<and> length (request_data client) \<le> length (request_data client'))
   \<and> (\<forall>n r client' w'. generate_requests n client args w = ((r, client'), w') \<longrightarrow>
        take (length (request_data client)) (request_data client') = request_data client
        \<and> length (request_data client) \<le> length (request_data client'))"
proof (intro conjI allI impI)
  fix client' w' assume "generate_request client args w = ((None, client'), w')"
  from generate_request_success [OF this]
  show "\<exists>request. request_data client' = request_data client @ [request]" by auto
next
  fix r client' w' assume "generate_request client args w = ((r, client'), w')"
  from generate_request_queue [OF this]
  obtain ys where "request_data client' = request_data client @ ys" by blast
  then show "take (length (request_data client)) (request_data client') = request_data client"
    and "length (request_data client) \<le> length (request_data client')" by simp_all
next
  fix n r client' w' assume g: "generate_requests n client args w = ((r, client'), w')"
  from generate_requests_prefix [OF g]
  show "take (length (request_data client)) (request_data client') = request_data client"
    and "length (request_data client) \<le> length (request_data client')" by simp_all
qed

text \<open>One call, and two calls, on a client whose queue holds one request.\<close>

theorem generate_request_appends_witness:
  "request_data (snd (fst (generate_request example_client ''p2'' example_world))) =
     [[(''hook'', PStr ''patient-view'')],
      [(''hook'', PStr ''patient-view''), (''context'', PModel [(''patientId'', PStr ''p2'')]),
       (''prefetch'', PNone)]]
   \<and> take 1 (request_data (snd (fst (generate_requests 2 example_client ''p2'' example_world))))
       = [[(''hook'', PStr ''patient-view'')]]"
proof -
  obtain client' w' where g: "generate_request example_client ''p2'' example_world = ((None, client'), w')"
    by (simp add: example_defs)
  note th = generate_request_appends [of example_client "''p2''" example_world]
  from th [THEN conjunct1, rule_format, OF g]
  obtain request where q: "request_data client' = request_data example_client @ [request]" by blast
  have "last (request_data client') = [(''hook'', PStr ''patient-view''),
       (''context'', PModel [(''patientId'', PStr ''p2'')]), (''prefetch'', PNone)]"
    using g by (auto simp: example_defs)
  with q have "request = [(''hook'', PStr ''patient-view''),
       (''context'', PModel [(''patientId'', PStr ''p2'')]), (''prefetch'', PNone)]" by simp
  with q g have a: "request_data (snd (fst (generate_request example_client ''p2'' example_world))) =
     [[(''hook'', PStr ''patient-view'')],
      [(''hook'', PStr ''patient-view''), (''context'', PModel [(''patientId'', PStr ''p2'')]),
       (''prefetch'', PNone)]]"
    by (simp add: example_client_def EHRClient_init_def)
  obtain r c2 w2 where g2: "generate_requests 2 example_client ''p2'' example_world = ((r, c2), w2)"
    by (metis prod.collapse)
  from th [THEN conjunct2, THEN conjunct2, rule_format, OF g2]
  have "take (length (request_data example_client)) (request_data c2) = request_data example_client"
    by simp
  with g2 have b: "take 1 (request_data (snd (fst (generate_requests 2 example_client ''p2'' example_world))))
       = [[(''hook'', PStr ''patient-view'')]]"
    by (simp add: example_client_def EHRClient_init_def)
  from a b show ?thesis by (rule conjI)
qed

text \<open>
  Claim C10. When the data generator function raises, or the strategy's
  \<^verbatim>\<open>construct_request\<close> raises, \<^verbatim>\<open>generate_request\<close> raises that exception and leaves the
  client, and so its queue, as it was.
\<close>

theorem generate_request_atomic:
  "(\<forall>e h1. data_generator_func client args (heap w) = (Inl e, h1) \<longrightarrow>
      fst (generate_request client args w) = (Some e, client))
   \<and> (\<forall>data h1 e h2. data_generator_func client args (heap w) = (Inr data, h1)
        \<and> strategy client data (workflow client) h1 = (Inl e, h2) \<longrightarrow>
      fst (generate_request client args w) = (Some e, client))
   \<and> (\<forall>e client' w'. generate_request client args w = ((Some e, client'), w') \<longrightarrow>
        request_data client' = request_data client)"
proof (intro conjI allI impI)
  fix e h1 assume "data_generator_func client args (heap w) = (Inl e, h1)"
  then show "fst (generate_request client args w) = (Some e, client)"
    by (simp add: generate_request_def)
next
  fix data h1 e h2
  assume "data_generator_func client args (heap w) = (Inr data, h1)
        \<and> strategy client data (workflow client) h1 = (Inl e, h2)"
  then show "fst (generate_request client args w) = (Some e, client)"
    by (simp add: generate_request_def)
next
  fix e client' w' assume "generate_request client args w = ((Some e, client'), w')"
  from generate_request_failure [OF this]
  show "request_data client' = request_data client" by simp
qed

text \<open>A data generator function that raises, and a strategy that raises.\<close>

theorem generate_request_atomic_witness:
  "fst (generate_request (example_client\<lparr>data_generator_func := failing_func\<rparr>) ''p2''
          (example_world\<lparr>heap := 1\<rparr>))
     = (Some (OtherException ''no data''), example_client\<lparr>data_generator_func := failing_func\<rparr>)
   \<and> fst (generate_request (example_client\<lparr>strategy := raising_strategy\<rparr>) ''p2'' example_world)
     = (Some (ValueError ''context'' []), example_client\<lparr>strategy := raising_strategy\<rparr>)"
proof -
  have f: "data_generator_func (example_client\<lparr>data_generator_func := failing_func\<rparr>) ''p2''
             (heap (example_world\<lparr>heap := 1\<rparr>)) = (Inl (OtherException ''no data''), 2)"
    by (simp add: failing_func_def)
  have s: "data_generator_func (example_client\<lparr>strategy := raising_strategy\<rparr>) ''p2''
             (heap example_world) = (Inr (PModel [(''patientId'', PStr ''p2'')]), 1)
        \<and> strategy (example_client\<lparr>strategy := raising_strategy\<rparr>)
             (PModel [(''patientId'', PStr ''p2'')])
             (workflow (example_client\<lparr>strategy := raising_strategy\<rparr>)) 1
           = (Inl (ValueError ''context'' []), 1)"
    by (simp add: example_client_def EHRClient_init_def example_func_def example_world_def
        raising_strategy_def)
  note a = generate_request_atomic [THEN conjunct1, rule_format, OF f]
  note b = generate_request_atomic [THEN conjunct2, THEN conjunct1, rule_format, OF s]
  from a b show ?thesis by (rule conjI)
qed

section \<open>Properties of the decorator\<close>

lemma configure_attribute_calls:
  "set_workflow_calls (trace (configure_attribute env v name i w)) =
     set_workflow_calls (trace w) @ [CallSetWorkflow name v]"
  by (auto simp: configure_attribute_def set_workflow_calls_def split: prod.splits option.splits)

lemma configure_attribute_generation:
  "generation_calls (trace (configure_attribute env v name i w)) = generation_calls (trace w)"
  by (auto simp: configure_attribute_def generation_calls_def split: prod.splits option.splits)

lemma configure_attribute_warnings:
  "warnings (trace (configure_attribute env v name i w)) =
     warnings (trace w) + (if i > 1 then 1 else 0)"
  by (auto simp: configure_attribute_def warnings_def split: prod.splits option.splits)

lemma configure_attribute_trace_mono:
  "set (trace w) \<subseteq> set (trace (configure_attribute env v name i w))"
  by (auto simp: configure_attribute_def split: prod.splits option.splits)

lemma configure_attribute_logs_failure:
  "fst (assign_to_attribute env name v (heap w)) = Some e \<Longrightarrow>
   Log (Error_set_workflow v name e) \<in> set (trace (configure_attribute env v name i w))"
  by (auto simp: configure_attribute_def split: prod.splits option.splits)

lemma set_workflows_append:
  "set_workflows env v (xs @ ys) i w =
     set_workflows env v ys (i + length xs) (set_workflows env v xs i w)"
  by (induction xs arbitrary: i w) auto

lemma set_workflows_calls:
  "set_workflow_calls (trace (set_workflows env v xs i w)) =
     set_workflow_calls (trace w) @ map (\<lambda>name. CallSetWorkflow name v) xs"
  by (induction xs arbitrary: i w) (auto simp: configure_attribute_calls)

lemma set_workflows_generation:
  "generation_calls (trace (set_workflows env v xs i w)) = generation_calls (trace w)"
  by (induction xs arbitrary: i w) (auto simp: configure_attribute_generation)

lemma set_workflows_trace_mono:
  "set (trace w) \<subseteq> set (trace (set_workflows env v xs i w))"
proof (induction xs arbitrary: i w)
  case Nil
  show ?case by simp
next
  case (Cons x xs)
  have "set (trace w) \<subseteq> set (trace (configure_attribute env v x i w))"
    by (rule configure_attribute_trace_mono)
  also have "\<dots> \<subseteq> set (trace (set_workflows env v xs (Suc i) (configure_attribute env v x i w)))"
    by (rule Cons.IH)
  finally show ?case by simp
qed

lemma set_workflows_warnings:
  "warnings (trace (set_workflows env v xs i w)) =
     warnings (trace w) + (length xs - (2 - i))"
  by (induction xs arbitrary: i w) (auto simp: configure_attribute_warnings)

lemma generate_request_trace_mono:
  "set (trace w) \<subseteq> set (trace (snd (generate_request client args w)))"
  by (auto simp: generate_request_def split: prod.splits sum.splits)

lemma generate_request_calls:
  "set_workflow_calls (trace (snd (generate_request client args w))) = set_workflow_calls (trace w)"
  by (auto simp: generate_request_def set_workflow_calls_def split: prod.splits sum.splits)

lemma generate_requests_trace_mono:
  "set (trace w) \<subseteq> set (trace (snd (generate_requests n client args w)))"
proof (induction n arbitrary: client w)
  case 0
  show ?case by simp
next
  case (Suc n)
  obtain r c' w' where g: "generate_request client args w = ((r, c'), w')"
    by (metis prod.collapse)
  have "set (trace w) \<subseteq> set (trace w')"
    using generate_request_trace_mono [of w client args] g by simp
  with Suc.IH [of w' c'] g show ?case
    by (cases r) auto
qed

lemma generate_requests_calls:
  "set_workflow_calls (trace (snd (generate_requests n client args w))) = set_workflow_calls (trace w)"
proof (induction n arbitrary: client w)
  case 0
  show ?case by simp
next
  case (Suc n)
  obtain r c' w' where g: "generate_request client args w = ((r, c'), w')"
    by (metis prod.collapse)
  have "set_workflow_calls (trace w') = set_workflow_calls (trace w)"
    using generate_request_calls [of client args w] g by simp
  with Suc.IH [of c' w'] g show ?case
    by (cases r) auto
qed

lemma Workflow_valid: "v \<in> set values \<Longrightarrow> Workflow values v = Inr v"
  by (simp add: Workflow_def)

lemma ehr_checked:
  assumes "is_use_case env (heap w)" and "workflow_id \<in> set (Workflow_values env)"
  shows "ehr env func workflow_id num args w =
     (case UseCaseType_contains (self_type env (heap (configured env workflow_id w))) of
        Inl e \<Rightarrow> (Inl e, configured env workflow_id w)
      | Inr recognised \<Rightarrow>
          if recognised then
            (case generate_requests (nat num)
                    (EHRClient_init func workflow_id (self_strategy env)) args
                    (configured env workflow_id w) of
               ((Some e, method), w2) \<Rightarrow> (Inl e, w2)
             | ((None, method), w2) \<Rightarrow> (Inr method, w2))
          else (Inl NotImplementedError, configured env workflow_id w))"
  using assms by (simp add: ehr_def Workflow_valid Let_def)

lemma ehr_world:
  assumes "is_use_case env (heap w)" and "workflow_id \<in> set (Workflow_values env)"
  shows "snd (ehr env func workflow_id num args w) = configured env workflow_id w
       \<or> snd (ehr env func workflow_id num args w) =
           snd (generate_requests (nat num) (EHRClient_init func workflow_id (self_strategy env))
                  args (configured env workflow_id w))"
  by (simp add: ehr_checked [OF assms] split: sum.splits prod.splits option.splits)

text \<open>
  Claim C3. For a caller that is a use case of a recognised type, a valid workflow
  identifier and a repeat count \<open>num\<close> (a count: not negative), a client that the wrapper
  returns has a queue of length \<open>num\<close>, and the wrapper returns a client when the data
  generator function and the strategy do not raise. When the call of \<^verbatim>\<open>generate_request\<close>
  after \<open>k < num\<close> successful ones raises, the wrapper raises that exception, and the world
  it leaves is the world at the raise: nothing is tried again, nothing more is generated.
\<close>

theorem ehr_queue_length:
  assumes u: "is_use_case env (heap w)" and v: "workflow_id \<in> set (Workflow_values env)"
    and t: "UseCaseType_contains (self_type env (heap (configured env workflow_id w))) = Inr True"
    and n: "0 \<le> num"
  shows "(\<forall>client w'. ehr env func workflow_id num args w = (Inr client, w') \<longrightarrow>
            int (length (request_data client)) = num)
       \<and> ((\<forall>a u. \<exists>d. fst (func a u) = Inr d) \<and> (\<forall>d v u. \<exists>r. fst (self_strategy env d v u) = Inr r) \<longrightarrow>
            (\<exists>client w'. ehr env func workflow_id num args w = (Inr client, w')))
       \<and> (\<forall>k client_k w_k e client' w'.
            k < nat num
            \<and> generate_requests k (EHRClient_init func workflow_id (self_strategy env)) args
                 (configured env workflow_id w) = ((None, client_k), w_k)
            \<and> generate_request client_k args w_k = ((Some e, client'), w') \<longrightarrow>
            ehr env func workflow_id num args w = (Inl e, w'))"
proof (intro conjI allI impI)
  let ?init = "EHRClient_init func workflow_id (self_strategy env)"
  let ?w1 = "configured env workflow_id w"
  note e = ehr_checked [OF u v, of func num args]
  {
    fix client w' assume r: "ehr env func workflow_id num args w = (Inr client, w')"
    obtain r1 c1 w1 where g: "generate_requests (nat num) ?init args ?w1 = ((r1, c1), w1)"
      by (metis prod.collapse)
    with r e t have "r1 = None" "c1 = client"
      by (auto split: option.splits)
    with g have "length (request_data client) = length (request_data ?init) + nat num"
      by (intro generate_requests_length [of "nat num" ?init args ?w1 client w1]) simp
    with n show "int (length (request_data client)) = num"
      by (simp add: EHRClient_init_def)
  next
    assume "(\<forall>a u. \<exists>d. fst (func a u) = Inr d) \<and> (\<forall>d v u. \<exists>r. fst (self_strategy env d v u) = Inr r)"
    then have "\<exists>client' w'. generate_requests (nat num) ?init args ?w1 = ((None, client'), w')"
      by (intro generate_requests_total) (simp_all add: EHRClient_init_def)
    with e t show "\<exists>client w'. ehr env func workflow_id num args w = (Inr client, w')"
      by auto
  next
    fix k client_k w_k ex client' w'
    assume a: "k < nat num
            \<and> generate_requests k ?init args ?w1 = ((None, client_k), w_k)
            \<and> generate_request client_k args w_k = ((Some ex, client'), w')"
    then obtain m where m: "nat num = k + Suc m"
      by (metis less_imp_Suc_add add_Suc_right)
    from a have "generate_requests (k + Suc m) ?init args ?w1 = generate_requests (Suc m) client_k args w_k"
      by (intro generate_requests_split) simp
    also have "\<dots> = ((Some ex, client'), w')" using a by simp
    finally show "ehr env func workflow_id num args w = (Inl ex, w')"
      using e t m by simp
  }
qed

text \<open>
  Two requests from a generator that does not raise; three asked from a generator that
  raises on its second call.
\<close>

theorem ehr_queue_length_witness:
  "(\<exists>client w'. ehr example_env example_func ''patient-view'' 2 ''p1'' example_world = (Inr client, w')
       \<and> int (length (request_data client)) = 2)
   \<and> fst (ehr example_env failing_func ''patient-view'' 3 ''p1'' example_world)
       = Inl (OtherException ''no data'')"
proof -
  have u: "is_use_case example_env (heap example_world)"
    and v: "''patient-view'' \<in> set (Workflow_values example_env)"
    and t: "UseCaseType_contains
              (self_type example_env (heap (configured example_env ''patient-view'' example_world)))
            = Inr True"
    by (simp_all add: example_env_def)
  have n2: "(0::int) \<le> 2" and n3: "(0::int) \<le> 3" by simp_all
  have f: "\<forall>a u. \<exists>d. fst (example_func a u) = Inr d"
    and s: "\<forall>d v u. \<exists>r. fst (self_strategy example_env d v u) = Inr r"
    by (simp_all add: example_func_def example_env_def)
  from ehr_queue_length [OF u v t n2, of example_func "''p1''"] f s
  have a: "\<exists>client w'. ehr example_env example_func ''patient-view'' 2 ''p1'' example_world = (Inr client, w')
       \<and> int (length (request_data client)) = 2"
    by blast
  have k: "(1::nat) < nat 3" by simp
  have g1: "generate_requests 1 (EHRClient_init failing_func ''patient-view'' (self_strategy example_env))
              ''p1'' (configured example_env ''patient-view'' example_world)
            = ((None, EHRClient_init failing_func ''patient-view'' (self_strategy example_env)
                       \<lparr>request_data := [[(''hook'', PStr ''patient-view''),
                                           (''context'', PModel [(''patientId'', PStr ''p1'')]),
                                           (''prefetch'', PNone)]]\<rparr>),
               \<lparr>heap = 1, trace = [CallSetWorkflow ''data_generator'' ''patient-view'',
                    Log (Error_set_workflow ''patient-view'' ''data_generator''
                           (OtherException ''workflow not supported'')),
                    CallSetWorkflow ''spare_generator'' ''patient-view'',
                    CallFunc, CallConstructRequest]\<rparr>)"
    by (simp add: example_defs)
  have g2: "generate_request (EHRClient_init failing_func ''patient-view'' (self_strategy example_env)
                       \<lparr>request_data := [[(''hook'', PStr ''patient-view''),
                                           (''context'', PModel [(''patientId'', PStr ''p1'')]),
                                           (''prefetch'', PNone)]]\<rparr>) ''p1''
               \<lparr>heap = 1, trace = [CallSetWorkflow ''data_generator'' ''patient-view'',
                    Log (Error_set_workflow ''patient-view'' ''data_generator''
                           (OtherException ''workflow not supported'')),
                    CallSetWorkflow ''spare_generator'' ''patient-view'',
                    CallFunc, CallConstructRequest]\<rparr>
            = ((Some (OtherException ''no data''),
                EHRClient_init failing_func ''patient-view'' (self_strategy example_env)
                       \<lparr>request_data := [[(''hook'', PStr ''patient-view''),
                                           (''context'', PModel [(''patientId'', PStr ''p1'')]),
                                           (''prefetch'', PNone)]]\<rparr>),
               \<lparr>heap = 2, trace = [CallSetWorkflow ''data_generator'' ''patient-view'',
                    Log (Error_set_workflow ''patient-view'' ''data_generator''
                           (OtherException ''workflow not supported'')),
                    CallSetWorkflow ''spare_generator'' ''patient-view'',
                    CallFunc, CallConstructRequest, CallFunc]\<rparr>)"
    by (simp add: example_defs)
  from ehr_queue_length [OF u v t n3, of failing_func "''p1''"] k g1 g2
  have "fst (ehr example_env failing_func ''patient-view'' 3 ''p1'' example_world)
       = Inl (OtherException ''no data'')"
    by (metis fst_conv)
  with a show ?thesis by simp
qed

text \<open>
  Claim C4 fails on the code. The warning is logged when \<open>i > 1\<close> for the index \<open>i\<close>,
  which starts at 0: it is first logged for the third attribute. For a caller with two
  data generator attributes, which is more than one, no warning is logged.
\<close>

theorem ehr_two_generators_no_warning:
  "length (find_attributes_of_type example_env (heap example_world)) = 2
   \<and> warnings (trace (snd (ehr example_env example_func ''patient-view'' 1 ''p1'' example_world))) = 0"
  by (simp add: example_defs ehr_def Workflow_def warnings_def)

text \<open>
  Claim C5. For a caller that is a use case and a workflow identifier that is no value of
  \<^verbatim>\<open>Workflow\<close>, the wrapper raises a \<^verbatim>\<open>ValueError\<close> that lists the valid values, and leaves
  the world as it was: no data generator is configured, no request is generated, no client
  is made.
\<close>

theorem ehr_invalid_workflow:
  assumes "is_use_case env (heap w)" and "workflow_id \<notin> set (Workflow_values env)"
  shows "ehr env func workflow_id num args w =
           (Inl (ValueError workflow_id (Workflow_values env)), w)"
  using assms by (simp add: ehr_def Workflow_def)

text \<open>A misspelt workflow identifier.\<close>

theorem ehr_invalid_workflow_witness:
  "ehr example_env example_func ''patient-veiw'' 2 ''p1'' example_world =
     (Inl (ValueError ''patient-veiw'' [''patient-view'', ''encounter-discharge'']),
      \<lparr>heap = 0, trace = []\<rparr>)"
proof -
  have u: "is_use_case example_env (heap example_world)"
    and v: "''patient-veiw'' \<notin> set (Workflow_values example_env)"
    by (simp_all add: example_env_def)
  from ehr_invalid_workflow [OF u v, of example_func 2 "''p1''"]
  show ?thesis by (simp add: example_env_def example_world_def)
qed

text \<open>
  What the wrapper does when the test of line 76 does not succeed, for a caller that is a
  use case with a valid workflow identifier: a type that is a member of another enum gives
  \<^verbatim>\<open>NotImplementedError\<close>, a type that is no enum member gives the \<^verbatim>\<open>TypeError\<close> of the test.
  Either way the world left is the world after the configuration of the data generators:
  no request has been generated, and no client is returned.
\<close>

lemma ehr_type_not_recognised:
  assumes "is_use_case env (heap w)" and "workflow_id \<in> set (Workflow_values env)"
    and "UseCaseType_contains (self_type env (heap (configured env workflow_id w))) \<noteq> Inr True"
  shows "ehr env func workflow_id num args w =
           ((case self_type env (heap (configured env workflow_id w)) of
               NotAnEnum v \<Rightarrow> Inl TypeError
             | _ \<Rightarrow> Inl NotImplementedError),
            configured env workflow_id w)
       \<and> generation_calls (trace (snd (ehr env func workflow_id num args w))) =
           generation_calls (trace w)"
  using assms
  by (cases "self_type env (heap (configured env workflow_id w))")
     (simp_all add: ehr_checked configured_def set_workflows_generation)

text \<open>
  Claim C8 fails on the code. The docstring of \<^verbatim>\<open>ehr\<close> promises \<^verbatim>\<open>NotImplementedError\<close> for a
  use case type that is not supported, and the \<^verbatim>\<open>else\<close> branch of line 80 raises it; but for
  a declared type that is no enum member, here the string \<^verbatim>\<open>'nonsense'\<close>, the test
  \<^verbatim>\<open>self.type in UseCaseType\<close> itself raises \<^verbatim>\<open>TypeError\<close>, and that is what the wrapper
  raises. No request has been generated by then.
\<close>

theorem ehr_type_not_an_enum_raises_TypeError:
  "fst (ehr (example_env\<lparr>self_type := \<lambda>u. NotAnEnum (PStr ''nonsense'')\<rparr>) example_func
          ''patient-view'' 2 ''p1'' example_world) = Inl TypeError
   \<and> generation_calls (trace (snd (ehr (example_env\<lparr>self_type := \<lambda>u. NotAnEnum (PStr ''nonsense'')\<rparr>)
          example_func ''patient-view'' 2 ''p1'' example_world))) = []"
  by (simp add: example_defs ehr_def Workflow_def generation_calls_def)

text \<open>
  Claim C9. \<^verbatim>\<open>set_workflow\<close> is called on every data generator attribute of the caller, in
  the order found, whether or not an earlier call raised; and when the call on an
  attribute raises, in the state the attributes before it have left, the error is in the
  log.
\<close>

theorem ehr_configures_every_generator:
  assumes u: "is_use_case env (heap w)" and v: "workflow_id \<in> set (Workflow_values env)"
  shows "set_workflow_calls (trace (snd (ehr env func workflow_id num args w))) =
           set_workflow_calls (trace w)
             @ map (\<lambda>name. CallSetWorkflow name workflow_id) (find_attributes_of_type env (heap w))
       \<and> (\<forall>before name after e.
            find_attributes_of_type env (heap w) = before @ name # after
            \<and> fst (assign_to_attribute env name workflow_id
                     (heap (set_workflows env workflow_id before 0 w))) = Some e \<longrightarrow>
            Log (Error_set_workflow workflow_id name e)
              \<in> set (trace (snd (ehr env func workflow_id num args w))))"
proof (intro conjI allI impI)
  let ?w1 = "configured env workflow_id w"
  let ?w2 = "snd (generate_requests (nat num) (EHRClient_init func workflow_id (self_strategy env))
                  args ?w1)"
  note cases = ehr_world [OF u v, of func num args]
  have c1: "set_workflow_calls (trace ?w1) =
              set_workflow_calls (trace w)
                @ map (\<lambda>name. CallSetWorkflow name workflow_id) (find_attributes_of_type env (heap w))"
    by (simp add: configured_def set_workflows_calls)
  have c2: "set_workflow_calls (trace ?w2) = set_workflow_calls (trace ?w1)"
    by (rule generate_requests_calls)
  from cases c1 c2
  show "set_workflow_calls (trace (snd (ehr env func workflow_id num args w))) =
           set_workflow_calls (trace w)
             @ map (\<lambda>name. CallSetWorkflow name workflow_id) (find_attributes_of_type env (heap w))"
    by auto
  have m2: "set (trace ?w1) \<subseteq> set (trace ?w2)"
    by (rule generate_requests_trace_mono)
  fix before name after e
  assume a: "find_attributes_of_type env (heap w) = before @ name # after
            \<and> fst (assign_to_attribute env name workflow_id
                     (heap (set_workflows env workflow_id before 0 w))) = Some e"
  let ?wb = "set_workflows env workflow_id before 0 w"
  let ?wn = "configure_attribute env workflow_id name (length before) ?wb"
  have "?w1 = set_workflows env workflow_id after (Suc (length before)) ?wn"
    using a by (simp add: configured_def set_workflows_append)
  moreover have "Log (Error_set_workflow workflow_id name e) \<in> set (trace ?wn)"
    using a by (intro configure_attribute_logs_failure) simp
  ultimately have "Log (Error_set_workflow workflow_id name e) \<in> set (trace ?w1)"
    using set_workflows_trace_mono [of ?wn env workflow_id after "Suc (length before)"] by auto
  with m2 cases
  show "Log (Error_set_workflow workflow_id name e)
              \<in> set (trace (snd (ehr env func workflow_id num args w)))"
    by auto
qed

text \<open>
  Two data generator attributes; \<^verbatim>\<open>set_workflow\<close> raises on the first and is still called
  on the second.
\<close>

theorem ehr_configures_every_generator_witness:
  "set_workflow_calls (trace (snd (ehr example_env example_func ''patient-view'' 1 ''p1'' example_world)))
     = [CallSetWorkflow ''data_generator'' ''patient-view'',
        CallSetWorkflow ''spare_generator'' ''patient-view'']
   \<and> Log (Error_set_workflow ''patient-view'' ''data_generator''
             (OtherException ''workflow not supported''))
       \<in> set (trace (snd (ehr example_env example_func ''patient-view'' 1 ''p1'' example_world)))"
proof -
  have u: "is_use_case example_env (heap example_world)"
    and v: "''patient-view'' \<in> set (Workflow_values example_env)"
    by (simp_all add: example_env_def)
  have s: "find_attributes_of_type example_env (heap example_world)
             = [] @ ''data_generator'' # [''spare_generator'']"
    and r: "fst (assign_to_attribute example_env ''data_generator'' ''patient-view''
                  (heap (set_workflows example_env ''patient-view'' [] 0 example_world)))
             = Some (OtherException ''workflow not supported'')"
    and c: "set_workflow_calls (trace example_world) = []"
    by (simp_all add: example_env_def example_world_def set_workflow_calls_def)
  note th = ehr_configures_every_generator [OF u v, of example_func 1 "''p1''"]
  have a: "set_workflow_calls (trace (snd (ehr example_env example_func ''patient-view'' 1 ''p1'' example_world)))
     = [CallSetWorkflow ''data_generator'' ''patient-view'',
        CallSetWorkflow ''spare_generator'' ''patient-view'']"
    using th [THEN conjunct1] c by (simp add: example_env_def)
  have b: "Log (Error_set_workflow ''patient-view'' ''data_generator''
             (OtherException ''workflow not supported''))
       \<in> set (trace (snd (ehr example_env example_func ''patient-view'' 1 ''p1'' example_world)))"
    by (rule th [THEN conjunct2, rule_format, OF conjI [OF s r]])
  from a b show ?thesis by (rule conjI)
qed

end
